theory Spec2Isabelle
  imports Complex_Main "HOL-Library.Sublist"
begin

section \<open>Python values read from the rule document\<close>

text \<open>
  The daemon keeps whatever \<^verbatim>\<open>json.load\<close> returned and inspects it dynamically
  (\<^verbatim>\<open>rule.get('enabled', True)\<close>, \<^verbatim>\<open>trigger.get('debounce', 0)\<close>, ...), so the model works
  on JSON values, not on a typed rule record. An object is the parsed dictionary, written
  as an association list read with \<open>map_of\<close>. Numbers are rationals: Python's \<^verbatim>\<open>int\<close> and
  \<^verbatim>\<open>float\<close> compare, hash and test for zero alike, and every finite float is a rational. The
  non-finite numbers that \<^verbatim>\<open>json.load\<close> accepts are outside the model.
\<close>

datatype json =
    JNull
  | JBool bool
  | JNum rat
  | JStr string
  | JArr "json list"
  | JObj "(string \<times> json) list"

text \<open>The exceptions that the daemon's own code can meet on such values.\<close>

datatype error = AttributeError | TypeError | ValueError | OverflowError

text \<open>\<^verbatim>\<open>bool(x)\<close>, as used by \<^verbatim>\<open>not x\<close> and \<^verbatim>\<open>if x\<close>.\<close>

fun truthy :: "json \<Rightarrow> bool" where
  "truthy JNull = False"
| "truthy (JBool b) = b"
| "truthy (JNum n) = (n \<noteq> 0)"
| "truthy (JStr s) = (s \<noteq> [])"
| "truthy (JArr xs) = (xs \<noteq> [])"
| "truthy (JObj kvs) = (kvs \<noteq> [])"

text \<open>\<^verbatim>\<open>x.get(k, d)\<close>: only a dictionary has the method.\<close>

fun dict_get :: "json \<Rightarrow> string \<Rightarrow> json \<Rightarrow> error + json" where
  "dict_get (JObj kvs) k d = Inr (case map_of kvs k of None \<Rightarrow> d | Some v \<Rightarrow> v)"
| "dict_get _ k d = Inl AttributeError"

text \<open>\<^verbatim>\<open>for x in v\<close>: a list gives its items, a dictionary its keys, a string its characters.\<close>

fun py_iter :: "json \<Rightarrow> error + json list" where
  "py_iter (JArr xs) = Inr xs"
| "py_iter (JObj kvs) = Inr (map (\<lambda>kv. JStr (fst kv)) kvs)"
| "py_iter (JStr s) = Inr (map (\<lambda>c. JStr [c]) s)"
| "py_iter _ = Inl TypeError"

text \<open>\<^verbatim>\<open>len(v)\<close>.\<close>

fun py_len :: "json \<Rightarrow> error + nat" where
  "py_len (JArr xs) = Inr (length xs)"
| "py_len (JObj kvs) = Inr (length kvs)"
| "py_len (JStr s) = Inr (length s)"
| "py_len _ = Inl TypeError"

text \<open>
  Dictionary keys: lists and dictionaries are unhashable; \<^verbatim>\<open>True\<close> and \<^verbatim>\<open>1\<close> are the same
  key, as are \<^verbatim>\<open>False\<close> and \<^verbatim>\<open>0\<close>.
\<close>

datatype pykey = KNone | KNum rat | KStr string

fun py_hash :: "json \<Rightarrow> error + pykey" where
  "py_hash JNull = Inr KNone"
| "py_hash (JBool b) = Inr (KNum (if b then 1 else 0))"
| "py_hash (JNum n) = Inr (KNum n)"
| "py_hash (JStr s) = Inr (KStr s)"
| "py_hash (JArr xs) = Inl TypeError"
| "py_hash (JObj kvs) = Inl TypeError"

text \<open>The values that take part in arithmetic and ordering with a number (\<^verbatim>\<open>bool\<close> is an \<^verbatim>\<open>int\<close>).\<close>

fun as_number :: "json \<Rightarrow> rat option" where
  "as_number (JBool b) = Some (if b then 1 else 0)"
| "as_number (JNum n) = Some n"
| "as_number _ = None"

section \<open>What the interpreter and the system provide\<close>

text \<open>
  \<^verbatim>\<open>float\<close> and \<^verbatim>\<open>subprocess.run\<close> are not code of the daemon. They are parameters:
  \<open>float_of_str s\<close> is \<open>None\<close> where \<^verbatim>\<open>float(s)\<close> raises \<^verbatim>\<open>ValueError\<close>, \<open>float_of_num n\<close> is
  \<open>None\<close> where \<^verbatim>\<open>float(n)\<close> raises \<^verbatim>\<open>OverflowError\<close> (an integer too large for a float),
  \<open>float_less\<close> is \<^verbatim>\<open><\<close> on floats, and \<open>run_raises c\<close> tells whether
  \<^verbatim>\<open>subprocess.run(c, shell=True)\<close> raises.
\<close>

record 'f pyenv =
  float_of_str :: "string \<Rightarrow> 'f option"
  float_of_num :: "rat \<Rightarrow> 'f option"
  float_less :: "'f \<Rightarrow> 'f \<Rightarrow> bool"
  run_raises :: "json \<Rightarrow> bool"

text \<open>\<^verbatim>\<open>float(v)\<close> on a document value.\<close>

fun py_float :: "'f pyenv \<Rightarrow> json \<Rightarrow> error + 'f" where
  "py_float env (JStr s) = (case float_of_str env s of None \<Rightarrow> Inl ValueError | Some x \<Rightarrow> Inr x)"
| "py_float env (JNum n) =
     (case float_of_num env n of None \<Rightarrow> Inl OverflowError | Some x \<Rightarrow> Inr x)"
| "py_float env (JBool b) =
     (case float_of_num env (if b then 1 else 0) of None \<Rightarrow> Inl OverflowError | Some x \<Rightarrow> Inr x)"
| "py_float env _ = Inl TypeError"

section \<open>The daemon\<close>

text \<open>What the daemon prints, and the commands it hands to the shell, in order.\<close>

datatype effect =
    Loaded nat
  | ConfigNotFound
  | ErrorLoadingRules
  | Reloading
  | ProcessingEvent string "string list"
  | RuleMatched json
  | Executing json
  | Run json
  | ErrorExecuting json

record daemon =
  rules :: json
  last_event_time :: "pykey \<rightharpoonup> rat"
  out :: "effect list"

subsection \<open>Loading and reloading the rules\<close>

text \<open>
  The configuration file as \<open>load_rules\<close> finds it: absent; present but \<^verbatim>\<open>open\<close> or
  \<^verbatim>\<open>json.load\<close> raises; or present with a document that parses.
\<close>

datatype config = NoFile | Unparsable | Document json

definition load_rules :: "config \<Rightarrow> daemon \<Rightarrow> daemon" where
  "load_rules cfg st =
     (case cfg of
        Document doc \<Rightarrow>
          (case py_len doc of
             Inr n \<Rightarrow> st\<lparr>rules := doc, out := out st @ [Loaded n]\<rparr>
           | Inl e \<Rightarrow> st\<lparr>rules := JArr [], out := out st @ [ErrorLoadingRules]\<rparr>)
      | Unparsable \<Rightarrow> st\<lparr>rules := JArr [], out := out st @ [ErrorLoadingRules]\<rparr>
      | NoFile \<Rightarrow> st\<lparr>rules := JArr [], out := out st @ [ConfigNotFound]\<rparr>)"

definition reload_handler :: "config \<Rightarrow> daemon \<Rightarrow> daemon" where
  "reload_handler cfg st = load_rules cfg (st\<lparr>out := out st @ [Reloading]\<rparr>)"

text \<open>The constructor: the rules are loaded first, then the debounce table starts empty.\<close>

definition init :: "config \<Rightarrow> daemon" where
  "init cfg =
     (load_rules cfg \<lparr>rules = JArr [], last_event_time = Map.empty, out = []\<rparr>)
       \<lparr>last_event_time := Map.empty\<rparr>"

subsection \<open>Parsing an event line\<close>

text \<open>\<^verbatim>\<open>s.split(sep, 1)\<close> where \<open>sep\<close> occurs: the text before and after its first occurrence.\<close>

fun split_first :: "string \<Rightarrow> string \<Rightarrow> (string \<times> string) option" where
  "split_first sep [] = (if sep = [] then Some ([], []) else None)"
| "split_first sep (c # cs) =
     (if prefix sep (c # cs) then Some ([], drop (length sep) (c # cs))
      else map_option (\<lambda>ab. (c # fst ab, snd ab)) (split_first sep cs))"

text \<open>\<^verbatim>\<open>s.split(c)\<close> for a one-character separator.\<close>

fun split_on :: "char \<Rightarrow> string \<Rightarrow> string list" where
  "split_on c [] = [[]]"
| "split_on c (x # xs) =
     (if x = c then [] # split_on c xs
      else (case split_on c xs of f # fs \<Rightarrow> (x # f) # fs | [] \<Rightarrow> [[x]]))"

definition parse_event :: "string \<Rightarrow> (string \<times> string list) option" where
  "parse_event event_str =
     (if \<not> sublist ''>>'' event_str then None
      else (case split_first ''>>'' event_str of
              Some (event_type, event_data) \<Rightarrow> Some (event_type, split_on CHR '','' event_data)
            | None \<Rightarrow> None))"

subsection \<open>Conditions\<close>

text \<open>The table inside \<open>check_condition\<close>: per event type, the position of each property.\<close>

definition property_map :: "(string \<times> (string \<times> nat) list) list" where
  "property_map =
     [(''openwindow'', [(''address'', 0), (''workspace'', 1), (''class'', 2), (''title'', 3)]),
      (''closewindow'', [(''address'', 0), (''workspace'', 1), (''class'', 2), (''title'', 3)]),
      (''activewindow'', [(''class'', 0), (''title'', 1)]),
      (''activewindowv2'', [(''address'', 0)]),
      (''workspace'', [(''name'', 0)]),
      (''workspacev2'', [(''name'', 0), (''id'', 1)]),
      (''destroyworkspacev2'', [(''name'', 0), (''id'', 1)]),
      (''windowtitle'', [(''address'', 0)]),
      (''windowtitlev2'', [(''address'', 0), (''title'', 1)]),
      (''activelayout'', [(''keyboard'', 0), (''layout'', 1)])]"

text \<open>\<^verbatim>\<open>property_map.get(event_type, {})\<close>.\<close>

definition event_property_map :: "string \<Rightarrow> (string \<times> nat) list" where
  "event_property_map event_type =
     (case map_of property_map event_type of None \<Rightarrow> [] | Some m \<Rightarrow> m)"

text \<open>
  \<^verbatim>\<open>event_property_map[property_name]\<close> after the membership test: the test hashes the
  name, and only a string can equal one of the keys.
\<close>

definition property_index :: "string \<Rightarrow> json \<Rightarrow> error + nat option" where
  "property_index event_type property_name =
     (case py_hash property_name of
        Inl e \<Rightarrow> Inl e
      | Inr (KStr p) \<Rightarrow> Inr (map_of (event_property_map event_type) p)
      | Inr _ \<Rightarrow> Inr None)"

text \<open>The comparison chain of \<open>check_condition\<close>, on the field found.\<close>

definition compare_values :: "'f pyenv \<Rightarrow> json \<Rightarrow> string \<Rightarrow> json \<Rightarrow> error + bool" where
  "compare_values env operator actual_value expected_value =
     (if operator = JStr ''equals'' then Inr (JStr actual_value = expected_value)
      else if operator = JStr ''contains'' then
        (case expected_value of JStr e \<Rightarrow> Inr (sublist e actual_value) | _ \<Rightarrow> Inl TypeError)
      else if operator = JStr ''startswith'' then
        (case expected_value of JStr e \<Rightarrow> Inr (prefix e actual_value) | _ \<Rightarrow> Inl TypeError)
      else if operator = JStr ''endswith'' then
        (case expected_value of JStr e \<Rightarrow> Inr (suffix e actual_value) | _ \<Rightarrow> Inl TypeError)
      else if operator = JStr ''greater'' then
        (case py_float env (JStr actual_value) of
           Inl ValueError \<Rightarrow> Inr False
         | Inl e \<Rightarrow> Inl e
         | Inr a \<Rightarrow>
             (case py_float env expected_value of
                Inl ValueError \<Rightarrow> Inr False
              | Inl e \<Rightarrow> Inl e
              | Inr b \<Rightarrow> Inr (float_less env b a)))
      else if operator = JStr ''less'' then
        (case py_float env (JStr actual_value) of
           Inl ValueError \<Rightarrow> Inr False
         | Inl e \<Rightarrow> Inl e
         | Inr a \<Rightarrow>
             (case py_float env expected_value of
                Inl ValueError \<Rightarrow> Inr False
              | Inl e \<Rightarrow> Inl e
              | Inr b \<Rightarrow> Inr (float_less env a b)))
      else Inr False)"

definition check_condition :: "'f pyenv \<Rightarrow> json \<Rightarrow> string list \<Rightarrow> string \<Rightarrow> error + bool" where
  "check_condition env condition event_data event_type =
     (case condition of
        JObj c \<Rightarrow>
          (let property_name = (case map_of c ''property'' of None \<Rightarrow> JNull | Some v \<Rightarrow> v);
               operator = (case map_of c ''operator'' of None \<Rightarrow> JNull | Some v \<Rightarrow> v);
               expected_value = (case map_of c ''value'' of None \<Rightarrow> JNull | Some v \<Rightarrow> v)
           in case property_index event_type property_name of
                Inl e \<Rightarrow> Inl e
              | Inr None \<Rightarrow> Inr False
              | Inr (Some index) \<Rightarrow>
                  if index \<ge> length event_data then Inr False
                  else compare_values env operator (event_data ! index) expected_value)
      | _ \<Rightarrow> Inl AttributeError)"

text \<open>The loop over the conditions: the first false one, or the first exception, ends it.\<close>

fun check_conditions :: "'f pyenv \<Rightarrow> json list \<Rightarrow> string list \<Rightarrow> string \<Rightarrow> error + bool" where
  "check_conditions env [] event_data event_type = Inr True"
| "check_conditions env (condition # cs) event_data event_type =
     (case check_condition env condition event_data event_type of
        Inl e \<Rightarrow> Inl e
      | Inr b \<Rightarrow> if \<not> b then Inr False else check_conditions env cs event_data event_type)"

subsection \<open>Deciding whether a rule runs\<close>

text \<open>
  The debounce block. \<open>Inr True\<close> means that the function goes on to the conditions,
  \<open>Inr False\<close> that it returns \<^verbatim>\<open>False\<close> there. \<open>current_time\<close> is the reading of the event
  loop's clock, in seconds; the interval of the rule is in milliseconds.
  The comparison is made here on the exact values; \<open>debounce_float\<close> below is the block with
  the rounding and the overflow of Python's floats.
\<close>

definition debounce :: "rat \<Rightarrow> json \<Rightarrow> json \<Rightarrow> daemon \<Rightarrow> (error + bool) \<times> daemon" where
  "debounce current_time rule_id debounce_ms st =
     (case as_number debounce_ms of
        None \<Rightarrow> (Inl TypeError, st)
      | Some d \<Rightarrow>
          if d > 0 then
            (case py_hash rule_id of
               Inl e \<Rightarrow> (Inl e, st)
             | Inr k \<Rightarrow>
                 (let last_time = (case last_event_time st k of None \<Rightarrow> 0 | Some t \<Rightarrow> t)
                  in if current_time - last_time < d / 1000 then (Inr False, st)
                     else (Inr True, st\<lparr>last_event_time := (last_event_time st)(k \<mapsto> current_time)\<rparr>)))
          else (Inr True, st))"

definition should_execute_rule ::
  "'f pyenv \<Rightarrow> rat \<Rightarrow> json \<Rightarrow> string \<Rightarrow> string list \<Rightarrow> daemon \<Rightarrow> (error + bool) \<times> daemon" where
  "should_execute_rule env current_time rule event_type event_data st =
     (case dict_get rule ''enabled'' (JBool True) of
        Inl e \<Rightarrow> (Inl e, st)
      | Inr enabled \<Rightarrow>
          if \<not> truthy enabled then (Inr False, st)
          else
            (case dict_get rule ''trigger'' (JObj []) of
               Inl e \<Rightarrow> (Inl e, st)
             | Inr trigger \<Rightarrow>
                 (case dict_get trigger ''type'' JNull of
                    Inl e \<Rightarrow> (Inl e, st)
                  | Inr trigger_type \<Rightarrow>
                      if trigger_type \<noteq> JStr event_type then (Inr False, st)
                      else
                        (case dict_get rule ''id'' (JStr []) of
                           Inl e \<Rightarrow> (Inl e, st)
                         | Inr rule_id \<Rightarrow>
                             (case dict_get trigger ''debounce'' (JNum 0) of
                                Inl e \<Rightarrow> (Inl e, st)
                              | Inr debounce_ms \<Rightarrow>
                                  (case debounce current_time rule_id debounce_ms st of
                                     (Inl e, st1) \<Rightarrow> (Inl e, st1)
                                   | (Inr False, st1) \<Rightarrow> (Inr False, st1)
                                   | (Inr True, st1) \<Rightarrow>
                                       (case dict_get rule ''conditions'' (JArr []) of
                                          Inl e \<Rightarrow> (Inl e, st1)
                                        | Inr conditions \<Rightarrow>
                                            (case py_iter conditions of
                                               Inl e \<Rightarrow> (Inl e, st1)
                                             | Inr cs \<Rightarrow>
                                                 (check_conditions env cs event_data event_type, st1)))))))))"

subsection \<open>Running the actions of a rule\<close>

text \<open>
  A command that is empty or missing is skipped. Whatever \<^verbatim>\<open>subprocess.run\<close> does, the loop
  goes on: an exception it raises is printed and dropped.
\<close>

fun run_actions :: "'f pyenv \<Rightarrow> json list \<Rightarrow> daemon \<Rightarrow> (error + unit) \<times> daemon" where
  "run_actions env [] st = (Inr (), st)"
| "run_actions env (action # as) st =
     (case dict_get action ''command'' JNull of
        Inl e \<Rightarrow> (Inl e, st)
      | Inr command \<Rightarrow>
          if truthy command then
            run_actions env as
              (st\<lparr>out := out st @ [Executing command, Run command]
                     @ (if run_raises env command then [ErrorExecuting command] else [])\<rparr>)
          else run_actions env as st)"

definition execute_actions :: "'f pyenv \<Rightarrow> json \<Rightarrow> daemon \<Rightarrow> (error + unit) \<times> daemon" where
  "execute_actions env rule st =
     (case dict_get rule ''actions'' (JArr []) of
        Inl e \<Rightarrow> (Inl e, st)
      | Inr actions \<Rightarrow>
          (case py_iter actions of
             Inl e \<Rightarrow> (Inl e, st)
           | Inr as \<Rightarrow> run_actions env as st))"

subsection \<open>Processing one event\<close>

text \<open>
  The loop over the rules. \<open>clock i\<close> is what the event loop's clock shows while the
  \<open>i\<close>-th of the remaining rules is examined. An exception leaves the loop, and keeps what
  was written to the debounce table and printed before it.
\<close>

fun process_rules ::
  "'f pyenv \<Rightarrow> (nat \<Rightarrow> rat) \<Rightarrow> json list \<Rightarrow> string \<Rightarrow> string list \<Rightarrow> daemon
     \<Rightarrow> (error + unit) \<times> daemon" where
  "process_rules env clock [] event_type event_data st = (Inr (), st)"
| "process_rules env clock (rule # rs) event_type event_data st =
     (case should_execute_rule env (clock 0) rule event_type event_data st of
        (Inl e, st1) \<Rightarrow> (Inl e, st1)
      | (Inr False, st1) \<Rightarrow> process_rules env (\<lambda>i. clock (Suc i)) rs event_type event_data st1
      | (Inr True, st1) \<Rightarrow>
          (case dict_get rule ''name'' (JStr ''unnamed'') of
             Inl e \<Rightarrow> (Inl e, st1)
           | Inr name \<Rightarrow>
               (case execute_actions env rule (st1\<lparr>out := out st1 @ [RuleMatched name]\<rparr>) of
                  (Inl e, st2) \<Rightarrow> (Inl e, st2)
                | (Inr u, st2) \<Rightarrow>
                    process_rules env (\<lambda>i. clock (Suc i)) rs event_type event_data st2)))"

definition process_event ::
  "'f pyenv \<Rightarrow> (nat \<Rightarrow> rat) \<Rightarrow> string \<Rightarrow> daemon \<Rightarrow> (error + unit) \<times> daemon" where
  "process_event env clock event_str st =
     (case parse_event event_str of
        None \<Rightarrow> (Inr (), st)
      | Some (event_type, event_data) \<Rightarrow>
          if event_type = [] \<or> event_data = [] then (Inr (), st)
          else
            (let st0 = st\<lparr>out := out st @ [ProcessingEvent event_type event_data]\<rparr>
             in case py_iter (rules st0) of
                  Inl e \<Rightarrow> (Inl e, st0)
                | Inr rs \<Rightarrow> process_rules env clock rs event_type event_data st0))"

section \<open>The debounce block in the arithmetic of floats\<close>

text \<open>
  The clock of the event loop gives a float, and in \<^verbatim>\<open>current_time - last_time < debounce_ms / 1000\<close>
  both sides are floats: the subtraction is a float subtraction, and the division is
  Python's true division, correctly rounded, which raises \<^verbatim>\<open>OverflowError\<close> when an integer
  quotient is too large for a float. A finite float is the rational it stands for; the
  operations round the exact result to binary64, to the nearest value with ties to even.
\<close>

text \<open>\<^verbatim>\<open>n.bit_length()\<close>.\<close>

fun bit_length :: "nat \<Rightarrow> nat" where
  "bit_length n = (if n = 0 then 0 else Suc (bit_length (n div 2)))"

declare bit_length.simps [simp del]

text \<open>The exponent \<open>e\<close> with \<open>2 ^ e \<le> x < 2 ^ (e + 1)\<close>, for a positive \<open>x\<close>.\<close>

definition binade :: "rat \<Rightarrow> int" where
  "binade x =
     (if 1 \<le> x then int (bit_length (nat \<lfloor>x\<rfloor>)) - 1
      else - int (bit_length (nat (\<lceil>1 / x\<rceil> - 1))))"

text \<open>Rounding to the nearest integer, a tie going to the even one.\<close>

definition half_even :: "rat \<Rightarrow> int" where
  "half_even x =
     (let f = \<lfloor>x\<rfloor>; r = x - of_int f
      in if r < 1 / 2 then f else if 1 / 2 < r then f + 1 else if even f then f else f + 1)"

text \<open>
  The distance between neighbouring floats at a positive \<open>x\<close>: 53 significant bits, and
  the fixed spacing of the subnormal numbers below \<open>2 ^ - 1022\<close>.
\<close>

definition ulp :: "rat \<Rightarrow> rat" where
  "ulp x = 2 powi (max (binade x) (- 1022) - 52)"

definition round_binary64 :: "rat \<Rightarrow> rat" where
  "round_binary64 x =
     (if x = 0 then 0
      else sgn x * (of_int (half_even (\<bar>x\<bar> / ulp \<bar>x\<bar>)) * ulp \<bar>x\<bar>))"

text \<open>From this value on, halfway between the largest float and \<open>2 ^ 1024\<close>, rounding overflows.\<close>

definition overflow_threshold :: rat where
  "overflow_threshold = 2 ^ 1024 - 2 ^ 970"

datatype binary64 = Fin rat | PosInf | NegInf

definition to_float :: "rat \<Rightarrow> binary64" where
  "to_float x =
     (if overflow_threshold \<le> x then PosInf
      else if x \<le> - overflow_threshold then NegInf
      else Fin (round_binary64 x))"

text \<open>\<^verbatim>\<open>a < b\<close> on floats.\<close>

fun float_lt :: "binary64 \<Rightarrow> binary64 \<Rightarrow> bool" where
  "float_lt (Fin a) (Fin b) = (a < b)"
| "float_lt (Fin a) PosInf = True"
| "float_lt NegInf (Fin b) = True"
| "float_lt NegInf PosInf = True"
| "float_lt a b = False"

text \<open>\<^verbatim>\<open>a - b\<close> on finite floats: an overflow gives an infinity, not an exception.\<close>

definition float_sub :: "rat \<Rightarrow> rat \<Rightarrow> binary64" where
  "float_sub a b = to_float (a - b)"

text \<open>\<^verbatim>\<open>a / b\<close> for a number \<open>a\<close> of the document and the integer \<open>b\<close>, which is 1000 here.\<close>

definition true_div :: "rat \<Rightarrow> rat \<Rightarrow> error + binary64" where
  "true_div a b =
     (case to_float (a / b) of Fin q \<Rightarrow> Inr (Fin q) | _ \<Rightarrow> Inl OverflowError)"

text \<open>
  The debounce block with these operations. The left side of the comparison is computed
  before the right side, and neither changes the state.
\<close>

definition debounce_float :: "rat \<Rightarrow> json \<Rightarrow> json \<Rightarrow> daemon \<Rightarrow> (error + bool) \<times> daemon" where
  "debounce_float current_time rule_id debounce_ms st =
     (case as_number debounce_ms of
        None \<Rightarrow> (Inl TypeError, st)
      | Some d \<Rightarrow>
          if d > 0 then
            (case py_hash rule_id of
               Inl e \<Rightarrow> (Inl e, st)
             | Inr k \<Rightarrow>
                 (let last_time = (case last_event_time st k of None \<Rightarrow> 0 | Some t \<Rightarrow> t);
                      elapsed = float_sub current_time last_time
                  in case true_div d 1000 of
                       Inl e \<Rightarrow> (Inl e, st)
                     | Inr interval \<Rightarrow>
                         if float_lt elapsed interval then (Inr False, st)
                         else (Inr True,
                               st\<lparr>last_event_time := (last_event_time st)(k \<mapsto> current_time)\<rparr>)))
          else (Inr True, st))"

section \<open>Notions used to state the properties\<close>

text \<open>\<^verbatim>\<open>c.join(fields)\<close>: what splitting on \<open>c\<close> undoes.\<close>

fun join_fields :: "char \<Rightarrow> string list \<Rightarrow> string" where
  "join_fields c [] = []"
| "join_fields c [f] = f"
| "join_fields c (f # g # fs) = f @ c # join_fields c (g # fs)"



subsection \<open>Concrete inputs\<close>

text \<open>The rule document that \<open>run\<close> writes when there is none.\<close>

definition default_rule :: json where
  "default_rule =
     JObj [(''id'', JStr ''wf_001''),
           (''name'', JStr ''Auto-move Spotify to workspace 5''),
           (''enabled'', JBool True),
           (''trigger'', JObj [(''type'', JStr ''openwindow''), (''debounce'', JNum 100)]),
           (''conditions'',
              JArr [JObj [(''property'', JStr ''class''), (''operator'', JStr ''equals''),
                          (''value'', JStr ''spotify'')]]),
           (''actions'', JArr [JObj [(''command'', JStr ''hyprctl dispatch movetoworkspace 5'')]])]"

definition default_config :: json where
  "default_config = JArr [default_rule]"

text \<open>
  An interpreter for the examples: \<^verbatim>\<open>float\<close> on plain integer literals (an optional minus
  sign and decimal digits), where it is exact; every other string is taken not to parse,
  which is right for the strings without digits that the examples use.
\<close>

definition digit :: "char \<Rightarrow> nat option" where
  "digit c = (let n = (of_char c :: nat) in if 48 \<le> n \<and> n \<le> 57 then Some (n - 48) else None)"

fun digits_value :: "nat \<Rightarrow> string \<Rightarrow> nat option" where
  "digits_value acc [] = Some acc"
| "digits_value acc (c # cs) =
     (case digit c of None \<Rightarrow> None | Some d \<Rightarrow> digits_value (10 * acc + d) cs)"

definition integer_literal :: "string \<Rightarrow> rat option" where
  "integer_literal s =
     (case s of
        [] \<Rightarrow> None
      | c # cs \<Rightarrow>
          if c = CHR ''-'' then
            (if cs = [] then None else map_option (\<lambda>n. - of_nat n) (digits_value 0 cs))
          else map_option of_nat (digits_value 0 s))"

definition example_env :: "rat pyenv" where
  "example_env =
     \<lparr>float_of_str = integer_literal, float_of_num = Some, float_less = (<),
      run_raises = (\<lambda>c. False)\<rparr>"

text \<open>A daemon that has loaded the default document and has fired no rule yet.\<close>

definition fresh_daemon :: daemon where
  "fresh_daemon = \<lparr>rules = default_config, last_event_time = Map.empty, out = []\<rparr>"

text \<open>The same daemon after the default rule fired at clock reading 10, and at 0.\<close>

definition fired_daemon :: daemon where
  "fired_daemon =
     \<lparr>rules = default_config, last_event_time = [KStr ''wf_001'' \<mapsto> 10], out = []\<rparr>"


text \<open>The fields of two \<^verbatim>\<open>openwindow\<close> events.\<close>

definition spotify_event :: "string list" where
  "spotify_event = [''0xdead'', ''1'', ''spotify'', ''Spotify - Song'']"

definition firefox_event :: "string list" where
  "firefox_event = [''0xbeef'', ''2'', ''firefox'', ''Mozilla Firefox'']"

text \<open>A rule switched off, a rule with no \<^verbatim>\<open>enabled\<close> entry, and a rule for the empty type.\<close>

definition disabled_rule :: json where
  "disabled_rule =
     JObj [(''id'', JStr ''wf_002''),
           (''enabled'', JBool False),
           (''trigger'', JObj [(''type'', JStr ''openwindow'')]),
           (''conditions'',
              JArr [JObj [(''property'', JStr ''class''), (''operator'', JStr ''equals''),
                          (''value'', JStr ''spotify'')]]),
           (''actions'', JArr [JObj [(''command'', JStr ''true'')]])]"

definition bare_rule :: "(string \<times> json) list" where
  "bare_rule =
     [(''id'', JStr ''wf_003''),
      (''trigger'', JObj [(''type'', JStr ''openwindow'')]),
      (''conditions'',
         JArr [JObj [(''property'', JStr ''class''), (''operator'', JStr ''equals''),
                     (''value'', JStr ''spotify'')]]),
      (''actions'', JArr [JObj [(''command'', JStr ''true'')]])]"






text \<open>A condition on the workspace of a window.\<close>

definition workspace_condition :: "string \<Rightarrow> string \<Rightarrow> (string \<times> json) list" where
  "workspace_condition operator v =
     [(''property'', JStr ''workspace''), (''operator'', JStr operator), (''value'', JStr v)]"

lemmas example_defs =
  default_rule_def default_config_def fresh_daemon_def example_env_def spotify_event_def

lemmas rule_defs =
  should_execute_rule_def debounce_def check_condition_def property_index_def
  event_property_map_def property_map_def compare_values_def

section \<open>Reloading\<close>

text \<open>
  C1, as the code has it: when reading or parsing the document raises on a reload
  (\<^verbatim>\<open>open\<close> or \<^verbatim>\<open>json.load\<close> raises, or the parsed value has no length), the handler of the
  exception reports the error and sets the rule list to the empty list, whatever rules were
  loaded before.
\<close>

theorem failed_reload_empties_rules:
  "cfg = Unparsable \<or> (\<exists>doc e. cfg = Document doc \<and> py_len doc = Inl e) \<Longrightarrow>
     reload_handler cfg st
       = st\<lparr>rules := JArr [], out := out st @ [Reloading, ErrorLoadingRules]\<rparr>"
  by (auto simp: reload_handler_def load_rules_def)

theorem failed_reload_empties_rules_witness:
  "rules (reload_handler Unparsable fresh_daemon) = JArr [] \<and>
   out (reload_handler Unparsable fresh_daemon) = [Reloading, ErrorLoadingRules] \<and>
   rules (reload_handler (Document (JNum 5)) fresh_daemon) = JArr []"
proof -
  have a: "Unparsable = Unparsable \<or> (\<exists>doc e. Unparsable = Document doc \<and> py_len doc = Inl e)"
    by simp
  have b: "Document (JNum 5) = Unparsable
             \<or> (\<exists>doc e. Document (JNum 5) = Document doc \<and> py_len doc = Inl e)"
    by simp
  show ?thesis
    using failed_reload_empties_rules[OF a, of fresh_daemon]
      failed_reload_empties_rules[OF b, of fresh_daemon]
    by (simp add: fresh_daemon_def)
qed

text \<open>
  The rules loaded before do not stay in effect: the daemon holds the default rule, the
  reload cannot parse the document, and the rule list is empty afterwards.
\<close>

theorem failed_reload_keeps_rules_counterexample:
  "rules fresh_daemon = JArr [default_rule] \<and>
   rules (reload_handler Unparsable fresh_daemon) = JArr [] \<and>
   rules (reload_handler Unparsable fresh_daemon) \<noteq> rules fresh_daemon"
  by (simp add: reload_handler_def load_rules_def fresh_daemon_def default_config_def)

text \<open>
  C2, as the code has it: a reload, successful or not, leaves the debounce table as it was,
  so every recorded time of last firing is still there after the reload.
\<close>

theorem reload_keeps_debounce_state:
  "last_event_time (reload_handler cfg st) = last_event_time st"
  by (simp add: reload_handler_def load_rules_def split: config.splits sum.splits)

theorem reload_keeps_debounce_state_witness:
  "last_event_time (reload_handler (Document default_config) fired_daemon) (KStr ''wf_001'')
     = Some 10"
  using reload_keeps_debounce_state[of "Document default_config" fired_daemon]
  by (simp add: fired_daemon_def)

text \<open>
  A successful reload does not clear the table: the rule fired at 10, the document is
  reloaded successfully, the entry is still there, and 50 ms later the rule is still held
  back, where a daemon started anew on the same document lets it run.
\<close>

theorem reload_resets_debounce_counterexample:
  "rules (reload_handler (Document default_config) fired_daemon) = default_config \<and>
   last_event_time (reload_handler (Document default_config) fired_daemon) (KStr ''wf_001'')
     = Some 10 \<and>
   fst (should_execute_rule example_env (201 / 20) default_rule ''openwindow'' spotify_event
          (reload_handler (Document default_config) fired_daemon)) = Inr False \<and>
   fst (should_execute_rule example_env (201 / 20) default_rule ''openwindow'' spotify_event
          (init (Document default_config))) = Inr True"
  by (simp add: reload_handler_def load_rules_def init_def rule_defs example_defs
      fired_daemon_def)

section \<open>Parsing an event line\<close>

lemma split_first_None: "\<not> sublist sep s \<Longrightarrow> split_first sep s = None"
proof (induction s)
  case Nil
  then show ?case by (cases sep) auto
next
  case (Cons c cs)
  then show ?case by (simp add: sublist_Cons_right)
qed

lemma split_first_Some:
  "sep \<noteq> [] \<Longrightarrow> sublist sep s \<Longrightarrow>
     \<exists>a b. split_first sep s = Some (a, b) \<and> s = a @ sep @ b
        \<and> (\<forall>j<length a. \<not> prefix sep (drop j s))"
proof (induction s)
  case Nil
  then show ?case by simp
next
  case (Cons c cs)
  show ?case
  proof (cases "prefix sep (c # cs)")
    case True
    then obtain r where r: "c # cs = sep @ r" by (auto simp: prefix_def)
    then have d: "drop (length sep) (c # cs) = r" by (metis append_eq_conv_conj)
    have "split_first sep (c # cs) = Some ([], r)" using True d by simp
    moreover have "c # cs = [] @ sep @ r" using r by simp
    ultimately show ?thesis by fastforce
  next
    case False
    with Cons.prems have "sublist sep cs" by (simp add: sublist_Cons_right)
    with Cons.IH Cons.prems obtain a b where ab: "split_first sep cs = Some (a, b)"
      "cs = a @ sep @ b" "\<forall>j<length a. \<not> prefix sep (drop j cs)" by blast
    have "\<forall>j<length (c # a). \<not> prefix sep (drop j (c # cs))"
    proof (intro allI impI)
      fix j assume "j < length (c # a)"
      then show "\<not> prefix sep (drop j (c # cs))"
        using False ab(3) by (cases j) auto
    qed
    with False ab show ?thesis by simp
  qed
qed

lemma split_on_not_Nil: "split_on c s \<noteq> []"
  by (induction s) (auto split: list.splits)

lemma split_on_no_sep: "f \<in> set (split_on c s) \<Longrightarrow> c \<notin> set f"
  by (induction s arbitrary: f) (auto split: list.splits if_splits)

lemma join_split_on: "join_fields c (split_on c s) = s"
proof (induction s)
  case Nil
  then show ?case by simp
next
  case (Cons x xs)
  then show ?case
    using split_on_not_Nil[of c xs]
    by (cases "split_on c xs"; cases "tl (split_on c xs)") (auto split: list.splits)
qed

text \<open>
  C5: a line that does not contain \<^verbatim>\<open>>>\<close> gives nothing. A line that contains it is cut at
  the first occurrence of \<^verbatim>\<open>>>\<close> (no occurrence starts inside the type) into the event type
  and a remainder, and the fields are the remainder split at every comma: there is at least
  one field, no field contains a comma, and joining the fields with commas gives the
  remainder back unchanged, so nothing is escaped or trimmed.
\<close>

theorem parse_event_delimiter:
  "(\<not> sublist ''>>'' line \<longrightarrow> parse_event line = None) \<and>
   (sublist ''>>'' line \<longrightarrow>
      (\<exists>event_type rest.
         parse_event line = Some (event_type, split_on CHR '','' rest) \<and>
         line = event_type @ ''>>'' @ rest \<and>
         (\<forall>j<length event_type. \<not> prefix ''>>'' (drop j line)) \<and>
         split_on CHR '','' rest \<noteq> [] \<and>
         join_fields CHR '','' (split_on CHR '','' rest) = rest \<and>
         (\<forall>f\<in>set (split_on CHR '','' rest). CHR '','' \<notin> set f)))"
proof (intro conjI impI)
  assume "\<not> sublist ''>>'' line"
  then show "parse_event line = None" by (simp add: parse_event_def)
next
  assume occ: "sublist ''>>'' line"
  then obtain a b where ab: "split_first ''>>'' line = Some (a, b)" "line = a @ ''>>'' @ b"
    "\<forall>j<length a. \<not> prefix ''>>'' (drop j line)"
    using split_first_Some[of "''>>''" line] by blast
  from occ ab(1) have "parse_event line = Some (a, split_on CHR '','' b)"
    by (simp add: parse_event_def)
  with ab(2,3) show "\<exists>event_type rest.
         parse_event line = Some (event_type, split_on CHR '','' rest) \<and>
         line = event_type @ ''>>'' @ rest \<and>
         (\<forall>j<length event_type. \<not> prefix ''>>'' (drop j line)) \<and>
         split_on CHR '','' rest \<noteq> [] \<and>
         join_fields CHR '','' (split_on CHR '','' rest) = rest \<and>
         (\<forall>f\<in>set (split_on CHR '','' rest). CHR '','' \<notin> set f)"
    using split_on_not_Nil[of "CHR '',''" b] join_split_on[of "CHR '',''" b]
      split_on_no_sep[of _ "CHR '',''" b]
    by blast
qed

theorem parse_event_delimiter_witness:
  "parse_event ''openwindow 0xdead'' = None \<and>
   parse_event ''openwindow>>0xdead,1,spotify,Spotify - Song''
     = Some (''openwindow'', [''0xdead'', ''1'', ''spotify'', ''Spotify - Song''])"
proof -
  have no: "\<not> sublist ''>>'' ''openwindow 0xdead''"
    by (simp add: sublist_code)
  have yes: "sublist ''>>'' ''openwindow>>0xdead,1,spotify,Spotify - Song''"
    by (simp add: sublist_code)
  have "parse_event ''openwindow 0xdead'' = None"
    using parse_event_delimiter[of "''openwindow 0xdead''"] no by blast
  moreover have "parse_event ''openwindow>>0xdead,1,spotify,Spotify - Song''
     = Some (''openwindow'', [''0xdead'', ''1'', ''spotify'', ''Spotify - Song''])"
  proof -
    from parse_event_delimiter[of "''openwindow>>0xdead,1,spotify,Spotify - Song''"] yes
    obtain ty rest where
      "parse_event ''openwindow>>0xdead,1,spotify,Spotify - Song'' = Some (ty, split_on CHR '','' rest)"
      by blast
    then show ?thesis by (simp add: parse_event_def sublist_code)
  qed
  ultimately show ?thesis by blast
qed

text \<open>
  C9: for a line that begins with \<^verbatim>\<open>>>\<close> the parser succeeds with the empty string as the
  type and the fields of the rest of the line, and processing the line returns at once,
  leaving the daemon as it was: no rule is examined, nothing is printed or run, and the
  debounce table is untouched.
\<close>

theorem empty_type_dropped:
  "parse_event (''>>'' @ rest) = Some ([], split_on CHR '','' rest) \<and>
   process_event env clock (''>>'' @ rest) st = (Inr (), st)"
proof -
  have "sublist ''>>'' (''>>'' @ rest)" by (rule sublist_append_rightI)
  then have p: "parse_event (''>>'' @ rest) = Some ([], split_on CHR '','' rest)"
    by (simp add: parse_event_def)
  then show ?thesis by (simp add: process_event_def)
qed

theorem empty_type_dropped_witness:
  "parse_event ''>>0xdead,1'' = Some ([], [''0xdead'', ''1'']) \<and>
   process_event example_env (\<lambda>i. 10) ''>>0xdead,1'' fresh_daemon = (Inr (), fresh_daemon)"
  using empty_type_dropped[of "''0xdead,1''" example_env "\<lambda>i. 10" fresh_daemon]
  by simp

section \<open>Conditions\<close>

text \<open>
  C7: a condition whose property, operator and value are strings, with operator
  \<^verbatim>\<open>greater\<close> or \<^verbatim>\<open>less\<close>, always returns a truth value and never raises. It is false when the
  property is not known for the event type or the event has too few fields, and false when
  the field or the expected value does not parse as a float; when both parse, it is the
  comparison of the two numbers.
\<close>

theorem numeric_comparison_total:
  assumes "map_of c ''property'' = Some (JStr property_name)"
    and "map_of c ''operator'' = Some (JStr operator)"
    and "operator = ''greater'' \<or> operator = ''less''"
    and "map_of c ''value'' = Some (JStr expected_value)"
  shows "check_condition env (JObj c) event_data event_type
           = Inr (case map_of (event_property_map event_type) property_name of
                    None \<Rightarrow> False
                  | Some index \<Rightarrow>
                      index < length event_data \<and>
                      (case (float_of_str env (event_data ! index),
                             float_of_str env expected_value) of
                         (Some actual, Some expected) \<Rightarrow>
                            if operator = ''greater'' then float_less env expected actual
                            else float_less env actual expected
                       | _ \<Rightarrow> False))"
  using assms
  by (auto simp: check_condition_def compare_values_def property_index_def split: option.splits)

theorem numeric_comparison_total_witness:
  "check_condition example_env (JObj (workspace_condition ''greater'' ''0'')) spotify_event
     ''openwindow'' = Inr True \<and>
   check_condition example_env (JObj (workspace_condition ''greater'' ''abc'')) spotify_event
     ''openwindow'' = Inr False \<and>
   check_condition example_env (JObj (workspace_condition ''less'' ''0'')) spotify_event
     ''openwindow'' = Inr False"
proof -
  have f: "float_of_str example_env ''1'' = Some 1" "float_of_str example_env ''0'' = Some 0"
    "float_of_str example_env ''abc'' = None"
    by (simp_all add: example_env_def integer_literal_def digit_def)
  have i: "map_of (event_property_map ''openwindow'') ''workspace'' = Some 1"
    by (simp add: event_property_map_def property_map_def)
  have l: "float_less example_env = (<)" by (simp add: example_env_def)
  have "check_condition example_env (JObj (workspace_condition ''greater'' ''0'')) spotify_event
          ''openwindow'' = Inr True"
    using numeric_comparison_total[where c = "workspace_condition ''greater'' ''0''"
        and property_name = "''workspace''" and operator = "''greater''"
        and expected_value = "''0''" and env = example_env and event_data = spotify_event
        and event_type = "''openwindow''"]
    by (simp add: workspace_condition_def i f l spotify_event_def)
  moreover
  have "check_condition example_env (JObj (workspace_condition ''greater'' ''abc'')) spotify_event
          ''openwindow'' = Inr False"
    using numeric_comparison_total[where c = "workspace_condition ''greater'' ''abc''"
        and property_name = "''workspace''" and operator = "''greater''"
        and expected_value = "''abc''" and env = example_env and event_data = spotify_event
        and event_type = "''openwindow''"]
    by (simp add: workspace_condition_def i f l spotify_event_def)
  moreover
  have "check_condition example_env (JObj (workspace_condition ''less'' ''0'')) spotify_event
          ''openwindow'' = Inr False"
    using numeric_comparison_total[where c = "workspace_condition ''less'' ''0''"
        and property_name = "''workspace''" and operator = "''less''"
        and expected_value = "''0''" and env = example_env and event_data = spotify_event
        and event_type = "''openwindow''"]
    by (simp add: workspace_condition_def i f l spotify_event_def)
  ultimately show ?thesis by blast
qed

section \<open>Deciding whether a rule runs\<close>

text \<open>
  C6: a rule whose \<^verbatim>\<open>enabled\<close> entry is false (or any other value that Python takes for
  false) is not run, for every event, clock reading and debounce table, whatever its trigger
  and conditions are; the daemon is left unchanged.
\<close>

theorem disabled_rule_never_fires:
  "dict_get rule ''enabled'' (JBool True) = Inr enabled \<Longrightarrow> \<not> truthy enabled \<Longrightarrow>
     should_execute_rule env current_time rule event_type event_data st = (Inr False, st)"
  by (simp add: should_execute_rule_def)

theorem disabled_rule_never_fires_witness:
  "dict_get disabled_rule ''enabled'' (JBool True) = Inr (JBool False) \<and>
   \<not> truthy (JBool False) \<and>
   check_conditions example_env
     [JObj [(''property'', JStr ''class''), (''operator'', JStr ''equals''),
            (''value'', JStr ''spotify'')]] spotify_event ''openwindow'' = Inr True \<and>
   should_execute_rule example_env 10 disabled_rule ''openwindow'' spotify_event fresh_daemon
     = (Inr False, fresh_daemon)"
proof -
  have g: "dict_get disabled_rule ''enabled'' (JBool True) = Inr (JBool False)"
    by (simp add: disabled_rule_def)
  have f: "\<not> truthy (JBool False)" by simp
  have c: "check_conditions example_env
     [JObj [(''property'', JStr ''class''), (''operator'', JStr ''equals''),
            (''value'', JStr ''spotify'')]] spotify_event ''openwindow'' = Inr True"
    by (simp add: rule_defs example_defs)
  from disabled_rule_never_fires[OF g f] g f c show ?thesis by blast
qed

text \<open>
  C10: a rule with no \<^verbatim>\<open>enabled\<close> entry is decided exactly as the same rule with
  \<^verbatim>\<open>enabled\<close> set to true.
\<close>

theorem enabled_defaults_to_true:
  "map_of r ''enabled'' = None \<Longrightarrow>
     should_execute_rule env current_time (JObj r) event_type event_data st
       = should_execute_rule env current_time (JObj ((''enabled'', JBool True) # r))
           event_type event_data st"
  by (simp add: should_execute_rule_def cong: sum.case_cong prod.case_cong bool.case_cong if_cong)

theorem enabled_defaults_to_true_witness:
  "map_of bare_rule ''enabled'' = None \<and>
   should_execute_rule example_env 10 (JObj bare_rule) ''openwindow'' spotify_event fresh_daemon
     = (Inr True, fresh_daemon) \<and>
   should_execute_rule example_env 10 (JObj bare_rule) ''openwindow'' firefox_event fresh_daemon
     = (Inr False, fresh_daemon)"
proof -
  have n: "map_of bare_rule ''enabled'' = None" by (simp add: bare_rule_def)
  have "should_execute_rule example_env 10 (JObj ((''enabled'', JBool True) # bare_rule))
          ''openwindow'' spotify_event fresh_daemon = (Inr True, fresh_daemon)"
    by (simp add: rule_defs example_defs bare_rule_def)
  moreover have "should_execute_rule example_env 10 (JObj ((''enabled'', JBool True) # bare_rule))
          ''openwindow'' firefox_event fresh_daemon = (Inr False, fresh_daemon)"
    by (simp add: rule_defs example_defs bare_rule_def firefox_event_def)
  ultimately show ?thesis
    using n enabled_defaults_to_true[OF n, of example_env 10 "''openwindow''" _ fresh_daemon]
    by simp
qed

subsection \<open>Rounding to a float\<close>





text \<open>Rounding never reverses the order of two numbers.\<close>

lemma bit_length_bounds: "0 < n \<Longrightarrow> 2 ^ (bit_length n - 1) \<le> n \<and> n < 2 ^ bit_length n"
proof (induction n rule: bit_length.induct)
  case (1 n)
  show ?case
  proof (cases "n div 2 = 0")
    case True
    with "1.prems" have "n = 1" by (cases n) auto
    then show ?thesis by (simp add: bit_length.simps)
  next
    case False
    then have pos: "0 < n div 2" by simp
    from "1.IH"[OF _ pos] "1.prems"
    have IH: "2 ^ (bit_length (n div 2) - 1) \<le> n div 2" "n div 2 < 2 ^ bit_length (n div 2)"
      by auto
    have bl: "bit_length n = Suc (bit_length (n div 2))"
      using "1.prems" by (subst bit_length.simps) simp
    have b1: "0 < bit_length (n div 2)"
      using pos by (subst bit_length.simps) simp
    then obtain k where k: "bit_length (n div 2) = Suc k" by (cases "bit_length (n div 2)") auto
    have "2 ^ Suc k \<le> 2 * (n div 2)" using IH(1) k by simp
    also have "\<dots> \<le> n" by simp
    finally have lo: "2 ^ (bit_length n - 1) \<le> n" using bl k by simp
    have "n < 2 * (n div 2) + 2" by presburger
    also have "\<dots> \<le> 2 * 2 ^ bit_length (n div 2)" using IH(2) by simp
    finally have "n < 2 ^ bit_length n" using bl by simp
    with lo show ?thesis by blast
  qed
qed

lemma binade_bounds:
  assumes "0 < x"
  shows "2 powi binade x \<le> x \<and> x < 2 powi (binade x + 1)"
proof (cases "1 \<le> x")
  case True
  define n where "n = nat \<lfloor>x\<rfloor>"
  have fl: "1 \<le> \<lfloor>x\<rfloor>" using True by simp
  then have n: "0 < n" "int n = \<lfloor>x\<rfloor>" by (simp_all add: n_def)
  from bit_length_bounds[OF n(1)]
  have b: "2 ^ (bit_length n - 1) \<le> n" "n < 2 ^ bit_length n" by auto
  have bpos: "0 < bit_length n" using n(1) by (subst bit_length.simps) simp
  have e: "binade x = int (bit_length n - 1)"
    using True bpos by (simp add: binade_def n_def)
  have "(2::rat) ^ (bit_length n - 1) \<le> of_nat n"
    using b(1) by (metis of_nat_le_iff of_nat_numeral of_nat_power)
  also have "(of_nat n :: rat) = of_int \<lfloor>x\<rfloor>" using n(2) by (metis of_int_of_nat_eq)
  also have "\<dots> \<le> x" by simp
  finally have lo: "2 powi binade x \<le> x" by (simp add: e)
  have "Suc n \<le> 2 ^ bit_length n" using b(2) by simp
  then have "(of_nat (Suc n) :: rat) \<le> 2 ^ bit_length n"
    by (metis of_nat_le_iff of_nat_numeral of_nat_power)
  moreover have "x < of_int \<lfloor>x\<rfloor> + 1" by linarith
  moreover have "(of_nat (Suc n) :: rat) = of_int \<lfloor>x\<rfloor> + 1"
    using n(2) by (metis of_int_of_nat_eq of_nat_Suc add.commute)
  ultimately have "x < 2 ^ bit_length n" by linarith
  moreover have "binade x + 1 = int (bit_length n)" using e bpos by simp
  ultimately have "x < 2 powi (binade x + 1)" by simp
  with lo show ?thesis by blast
next
  case False
  define y where "y = 1 / x"
  have y1: "1 < y" using False assms by (simp add: y_def)
  define m where "m = nat (\<lceil>y\<rceil> - 1)"
  have c: "2 \<le> \<lceil>y\<rceil>" using y1 by linarith
  then have m: "0 < m" "int m = \<lceil>y\<rceil> - 1" by (simp_all add: m_def)
  from bit_length_bounds[OF m(1)]
  have b: "2 ^ (bit_length m - 1) \<le> m" "m < 2 ^ bit_length m" by auto
  have bpos: "0 < bit_length m" using m(1) by (subst bit_length.simps) simp
  have e: "binade x = - int (bit_length m)"
    using False by (simp add: binade_def m_def y_def)
  have mr: "(of_nat m :: rat) = of_int \<lceil>y\<rceil> - 1"
    using m(2) by (metis of_int_of_nat_eq of_int_diff of_int_1)
  have "Suc m \<le> 2 ^ bit_length m" using b(2) by simp
  then have "(of_nat (Suc m) :: rat) \<le> 2 ^ bit_length m"
    by (metis of_nat_le_iff of_nat_numeral of_nat_power)
  moreover have "y \<le> of_int \<lceil>y\<rceil>" by (rule le_of_int_ceiling)
  moreover have "(of_nat (Suc m) :: rat) = of_nat m + 1" by simp
  ultimately have yu: "y \<le> 2 ^ bit_length m" using mr by linarith
  have "(2::rat) ^ (bit_length m - 1) \<le> of_nat m"
    using b(1) by (metis of_nat_le_iff of_nat_numeral of_nat_power)
  moreover have "of_int \<lceil>y\<rceil> - 1 < y" by linarith
  ultimately have yl: "2 ^ (bit_length m - 1) < y" using mr by linarith
  have xy: "1 / y = x" using assms by (simp add: y_def)
  have p1: "(2::rat) powi binade x = 1 / 2 ^ bit_length m"
    unfolding e by (simp add: power_int_minus inverse_eq_divide)
  have "binade x + 1 = - int (bit_length m - 1)" unfolding e using bpos by simp
  then have p2: "(2::rat) powi (binade x + 1) = 1 / 2 ^ (bit_length m - 1)"
    by (simp add: power_int_minus inverse_eq_divide)
  have ypos: "0 < y" using y1 by simp
  have pp: "(0::rat) < 2 ^ (bit_length m - 1)" by simp
  have "1 / 2 ^ bit_length m \<le> 1 / y"
    using yu ypos by (intro divide_left_mono) simp_all
  then have lo: "2 powi binade x \<le> x" unfolding p1 xy .
  have "1 / y < 1 / 2 ^ (bit_length m - 1)"
    using yl pp ypos by (intro divide_strict_left_mono) simp_all
  then have hi: "x < 2 powi (binade x + 1)" unfolding p2 xy .
  from lo hi show ?thesis by blast
qed

lemma half_even_bounds: "\<lfloor>x\<rfloor> \<le> half_even x \<and> half_even x \<le> \<lfloor>x\<rfloor> + 1"
  by (simp add: half_even_def Let_def)

lemma half_even_of_int [simp]: "half_even (of_int k) = k"
  by (simp add: half_even_def Let_def)

lemma half_even_mono: "a \<le> b \<Longrightarrow> half_even a \<le> half_even b"
proof -
  assume ab: "a \<le> b"
  then have "\<lfloor>a\<rfloor> \<le> \<lfloor>b\<rfloor>" by (rule floor_mono)
  then consider "\<lfloor>a\<rfloor> = \<lfloor>b\<rfloor>" | "\<lfloor>a\<rfloor> + 1 \<le> \<lfloor>b\<rfloor>" by linarith
  then show ?thesis
  proof cases
    case 1
    with ab show ?thesis by (auto simp: half_even_def Let_def)
  next
    case 2
    with half_even_bounds[of a] half_even_bounds[of b] show ?thesis by linarith
  qed
qed

lemma half_even_ge: "of_int k \<le> x \<Longrightarrow> k \<le> half_even x"
  using half_even_mono[of "of_int k" x] by simp

lemma half_even_le: "x \<le> of_int k \<Longrightarrow> half_even x \<le> k"
  using half_even_mono[of x "of_int k"] by simp

lemma binade_mono:
  assumes "0 < x" "x \<le> y"
  shows "binade x \<le> binade y"
proof (rule ccontr)
  assume "\<not> binade x \<le> binade y"
  then have "binade y + 1 \<le> binade x" by simp
  then have "(2::rat) powi (binade y + 1) \<le> 2 powi binade x"
    by (intro power_int_increasing) simp_all
  moreover have "2 powi binade x \<le> x" using binade_bounds[OF assms(1)] by blast
  moreover have "y < 2 powi (binade y + 1)" using binade_bounds[of y] assms by simp
  ultimately show False using assms(2) by linarith
qed

lemma ulp_eq: "ulp x = 2 powi (max (binade x) (- 1022)) / 2 ^ 52"
proof -
  have "(2::rat) powi (max (binade x) (- 1022) - 52)
          = 2 powi (max (binade x) (- 1022)) / 2 powi 52"
    by (rule power_int_diff) simp
  then show ?thesis by (simp add: ulp_def)
qed

lemma ulp_pos: "0 < ulp x"
  by (simp add: ulp_def)

lemma round_pos_eq: "0 < x \<Longrightarrow> round_binary64 x = of_int (half_even (x / ulp x)) * ulp x"
  by (simp add: round_binary64_def)

lemma round_pos_mono:
  assumes "0 < x" "x \<le> y"
  shows "round_binary64 x \<le> round_binary64 y"
proof -
  have ypos: "0 < y" using assms by simp
  define Ex where "Ex = max (binade x) (- 1022)"
  define Ey where "Ey = max (binade y) (- 1022)"
  define Px where "Px = (2::rat) powi Ex"
  define Py where "Py = (2::rat) powi Ey"
  have Ppos: "0 < Px" "0 < Py" by (simp_all add: Px_def Py_def)
  have ux: "ulp x = Px / 2 ^ 52" by (simp add: ulp_eq Px_def Ex_def)
  have uy: "ulp y = Py / 2 ^ 52" by (simp add: ulp_eq Py_def Ey_def)
  have rx: "round_binary64 x = of_int (half_even (x / ulp x)) * ulp x"
    using assms(1) by (rule round_pos_eq)
  have ry: "round_binary64 y = of_int (half_even (y / ulp y)) * ulp y"
    using ypos by (rule round_pos_eq)
  have E: "Ex \<le> Ey" using binade_mono[OF assms] by (simp add: Ex_def Ey_def)
  show ?thesis
  proof (cases "Ex = Ey")
    case True
    then have u: "ulp y = ulp x" by (simp add: ux uy Px_def Py_def)
    have "x / ulp x \<le> y / ulp x" using assms(2) ulp_pos[of x] by (simp add: divide_right_mono)
    then have "half_even (x / ulp x) \<le> half_even (y / ulp x)" by (rule half_even_mono)
    then have "(of_int (half_even (x / ulp x)) :: rat) \<le> of_int (half_even (y / ulp x))" by simp
    then have "of_int (half_even (x / ulp x)) * ulp x \<le> of_int (half_even (y / ulp x)) * ulp x"
      using ulp_pos[of x] by (simp add: mult_right_mono)
    then show ?thesis by (simp add: rx ry u)
  next
    case False
    with E have lt: "Ex < Ey" by simp
    then have "Ey = binade y" by (simp add: Ex_def Ey_def max_def split: if_splits)
    then have Py_le: "Py \<le> y" using binade_bounds[OF ypos] by (simp add: Py_def)
    have "of_int (2 ^ 52) \<le> y / ulp y"
    proof -
      have "(2::rat) ^ 52 = Py / ulp y" using Ppos by (simp add: uy)
      also have "\<dots> \<le> y / ulp y" using Py_le ulp_pos[of y] by (simp add: divide_right_mono)
      finally show ?thesis by simp
    qed
    then have "2 ^ 52 \<le> half_even (y / ulp y)" by (rule half_even_ge)
    then have "(of_int (2 ^ 52) :: rat) \<le> of_int (half_even (y / ulp y))"
      by (simp only: of_int_le_iff)
    then have "of_int (2 ^ 52) * ulp y \<le> of_int (half_even (y / ulp y)) * ulp y"
      using ulp_pos[of y] by (intro mult_right_mono) simp_all
    moreover have "of_int (2 ^ 52) * ulp y = Py" by (simp add: uy)
    ultimately have lower: "Py \<le> round_binary64 y" by (simp add: ry)
    have "binade x + 1 \<le> Ex + 1" by (simp add: Ex_def)
    then have "(2::rat) powi (binade x + 1) \<le> 2 powi (Ex + 1)"
      by (intro power_int_increasing) simp_all
    moreover have "x < 2 powi (binade x + 1)" using binade_bounds[OF assms(1)] by blast
    moreover have "(2::rat) powi (Ex + 1) = Px * 2"
      unfolding Px_def by (rule power_int_add_1) simp
    ultimately have xle: "x \<le> 2 * Px" by simp
    have "x / ulp x \<le> of_int (2 ^ 53)"
    proof -
      have "x / ulp x \<le> (2 * Px) / ulp x" using xle ulp_pos[of x] by (simp add: divide_right_mono)
      also have "\<dots> = 2 ^ 53" using Ppos by (simp add: ux)
      finally show ?thesis by simp
    qed
    then have "half_even (x / ulp x) \<le> 2 ^ 53" by (rule half_even_le)
    then have "(of_int (half_even (x / ulp x)) :: rat) \<le> of_int (2 ^ 53)"
      by (simp only: of_int_le_iff)
    then have "of_int (half_even (x / ulp x)) * ulp x \<le> of_int (2 ^ 53) * ulp x"
      using ulp_pos[of x] by (intro mult_right_mono) simp_all
    moreover have "of_int (2 ^ 53) * ulp x = 2 * Px" by (simp add: ux)
    ultimately have upper: "round_binary64 x \<le> 2 * Px" by (simp add: rx)
    have "Ex + 1 \<le> Ey" using lt by simp
    then have "(2::rat) powi (Ex + 1) \<le> 2 powi Ey" by (intro power_int_increasing) simp_all
    moreover have "(2::rat) powi (Ex + 1) = Px * 2"
      unfolding Px_def by (rule power_int_add_1) simp
    ultimately have "2 * Px \<le> Py" by (simp add: Py_def)
    with lower upper show ?thesis by linarith
  qed
qed

lemma round_nonneg: "0 \<le> x \<Longrightarrow> 0 \<le> round_binary64 x"
proof (cases "x = 0")
  case True
  then show ?thesis by (simp add: round_binary64_def)
next
  case False
  assume "0 \<le> x"
  with False have pos: "0 < x" by simp
  have "0 \<le> x / ulp x" using pos ulp_pos[of x] by simp
  then have "0 \<le> half_even (x / ulp x)" using half_even_ge[of 0 "x / ulp x"] by simp
  then show ?thesis using ulp_pos[of x] by (simp add: round_pos_eq[OF pos])
qed

lemma round_minus: "round_binary64 (- x) = - round_binary64 x"
  by (simp add: round_binary64_def)

lemma round_mono: 
  assumes "x \<le> y"
  shows "round_binary64 x \<le> round_binary64 y"
proof -
  consider "0 < x" | "x \<le> 0" "0 \<le> y" | "y < 0" by linarith
  then show ?thesis
  proof cases
    case 1
    then show ?thesis using assms by (rule round_pos_mono)
  next
    case 2
    have "0 \<le> round_binary64 (- x)" using 2(1) by (intro round_nonneg) simp
    then have "round_binary64 x \<le> 0" by (simp add: round_minus)
    moreover have "0 \<le> round_binary64 y" using 2(2) by (rule round_nonneg)
    ultimately show ?thesis by linarith
  next
    case 3
    have "round_binary64 (- y) \<le> round_binary64 (- x)"
      using 3 assms by (intro round_pos_mono) simp_all
    then show ?thesis by (simp add: round_minus)
  qed
qed

lemma overflow_threshold_pos: "0 < overflow_threshold"
  by (simp add: overflow_threshold_def)

lemma to_float_mono: "x \<le> y \<Longrightarrow> \<not> float_lt (to_float y) (to_float x)"
  using round_mono[of x y] overflow_threshold_pos
  by (auto simp: to_float_def)


lemma true_div_cases:
  "0 < a \<Longrightarrow> 0 < b \<Longrightarrow>
     true_div a b = (if overflow_threshold \<le> a / b then Inl OverflowError
                     else Inr (Fin (round_binary64 (a / b))))"
proof -
  assume "0 < a" "0 < b"
  then have "0 < a / b" by simp
  then show ?thesis using overflow_threshold_pos by (auto simp: true_div_def to_float_def)
qed

lemma elapsed_not_less:
  assumes "d / 1000 \<le> now - last_time"
  shows "\<not> float_lt (float_sub now last_time) (to_float (d / 1000))"
  unfolding float_sub_def using assms by (rule to_float_mono)

lemma debounce_float_cases:
  assumes "as_number debounce_ms = Some d"
    and "py_hash rule_id = Inr k"
    and "last_time = (case last_event_time st k of None \<Rightarrow> 0 | Some t \<Rightarrow> t)"
  shows "(0 < d \<and> overflow_threshold \<le> d / 1000 \<longrightarrow>
            debounce_float now rule_id debounce_ms st = (Inl OverflowError, st)) \<and>
         (0 < d \<and> d / 1000 < overflow_threshold
            \<and> float_lt (float_sub now last_time) (to_float (d / 1000)) \<longrightarrow>
            debounce_float now rule_id debounce_ms st = (Inr False, st)
            \<and> 1000 * (now - last_time) < d) \<and>
         (0 < d \<and> d / 1000 < overflow_threshold
            \<and> \<not> float_lt (float_sub now last_time) (to_float (d / 1000)) \<longrightarrow>
            debounce_float now rule_id debounce_ms st
              = (Inr True, st\<lparr>last_event_time := (last_event_time st)(k \<mapsto> now)\<rparr>)) \<and>
         (0 < d \<and> d / 1000 < overflow_threshold \<and> \<not> 1000 * (now - last_time) < d \<longrightarrow>
            debounce_float now rule_id debounce_ms st
              = (Inr True, st\<lparr>last_event_time := (last_event_time st)(k \<mapsto> now)\<rparr>)) \<and>
         (d = 0 \<longrightarrow> debounce_float now rule_id debounce_ms st = (Inr True, st))"
proof -
  have over: "debounce_float now rule_id debounce_ms st = (Inl OverflowError, st)"
    if "0 < d" "overflow_threshold \<le> d / 1000"
    using that assms by (simp add: debounce_float_def true_div_cases Let_def)
  have fin: "true_div d 1000 = Inr (to_float (d / 1000))"
    if "0 < d" "d / 1000 < overflow_threshold"
  proof -
    from that(1) have "0 < d / 1000" by simp
    then show ?thesis using that(2) overflow_threshold_pos
      by (auto simp: true_div_def to_float_def)
  qed
  have held: "debounce_float now rule_id debounce_ms st = (Inr False, st)"
    if "0 < d" "d / 1000 < overflow_threshold"
      "float_lt (float_sub now last_time) (to_float (d / 1000))"
    using that assms fin by (simp add: debounce_float_def Let_def)
  have inside: "1000 * (now - last_time) < d"
    if "float_lt (float_sub now last_time) (to_float (d / 1000))"
  proof (rule ccontr)
    assume "\<not> 1000 * (now - last_time) < d"
    then have "d / 1000 \<le> now - last_time" by (simp add: field_simps)
    from elapsed_not_less[OF this] that show False by blast
  qed
  have pass: "debounce_float now rule_id debounce_ms st
                = (Inr True, st\<lparr>last_event_time := (last_event_time st)(k \<mapsto> now)\<rparr>)"
    if "0 < d" "d / 1000 < overflow_threshold"
      "\<not> float_lt (float_sub now last_time) (to_float (d / 1000))"
    using that assms fin by (simp add: debounce_float_def Let_def)
  have zero: "debounce_float now rule_id debounce_ms st = (Inr True, st)" if "d = 0"
    using that assms by (simp add: debounce_float_def)
  show ?thesis using over held inside pass zero by blast
qed




text \<open>
  Where the exact comparison lets a rule pass, so does the comparison on floats, and where
  the comparison on floats holds a rule back, so does the exact one.
\<close>

lemma debounce_float_agrees:
  assumes "as_number debounce_ms = Some d" and "d / 1000 < overflow_threshold"
  shows "(fst (debounce now rule_id debounce_ms st) = Inr True \<longrightarrow>
            debounce_float now rule_id debounce_ms st = debounce now rule_id debounce_ms st) \<and>
         (fst (debounce_float now rule_id debounce_ms st) = Inr False \<longrightarrow>
            debounce now rule_id debounce_ms st = debounce_float now rule_id debounce_ms st)"
proof (cases "0 < d")
  case False
  with assms show ?thesis by (simp add: debounce_def debounce_float_def)
next
  case True
  show ?thesis
  proof (cases "py_hash rule_id")
    case (Inl e)
    with True assms show ?thesis by (simp add: debounce_def debounce_float_def)
  next
    case (Inr k)
    define last_time where "last_time = (case last_event_time st k of None \<Rightarrow> 0 | Some t \<Rightarrow> t)"
    note c = debounce_float_cases[OF assms(1) Inr last_time_def, of now]
    have ex: "debounce now rule_id debounce_ms st
                = (if 1000 * (now - last_time) < d then (Inr False, st)
                   else (Inr True, st\<lparr>last_event_time := (last_event_time st)(k \<mapsto> now)\<rparr>))"
      using True assms(1) Inr by (simp add: debounce_def Let_def last_time_def field_simps)
    show ?thesis
    proof (cases "float_lt (float_sub now last_time) (to_float (d / 1000))")
      case lt: True
      with c True assms(2) show ?thesis by (simp add: ex)
    next
      case nlt: False
      with c True assms(2) show ?thesis by (auto simp: ex)
    qed
  qed
qed

text \<open>
  C3: for an enabled rule whose trigger type is the event's type, whose interval is
  positive and has elapsed, the time of last firing is set to the current time before the
  conditions are looked at: when a condition is then false, the rule is not run, and the
  new time stays recorded.
\<close>

theorem debounce_recorded_before_conditions:
  assumes "dict_get rule ''enabled'' (JBool True) = Inr enabled" and "truthy enabled"
    and "dict_get rule ''trigger'' (JObj []) = Inr trigger"
    and "dict_get trigger ''type'' JNull = Inr (JStr event_type)"
    and "dict_get trigger ''debounce'' (JNum 0) = Inr debounce_ms"
    and "as_number debounce_ms = Some d" and "0 < d"
    and "dict_get rule ''id'' (JStr []) = Inr rule_id" and "py_hash rule_id = Inr k"
    and "\<not> 1000 * (now - (case last_event_time st k of None \<Rightarrow> 0 | Some t \<Rightarrow> t)) < d"
    and "dict_get rule ''conditions'' (JArr []) = Inr conditions"
    and "py_iter conditions = Inr cs"
    and "check_conditions env cs event_data event_type = Inr False"
  shows "should_execute_rule env now rule event_type event_data st
           = (Inr False, st\<lparr>last_event_time := (last_event_time st)(k \<mapsto> now)\<rparr>)"
proof -
  have "\<not> now - (case last_event_time st k of None \<Rightarrow> 0 | Some t \<Rightarrow> t) < d / 1000"
    using assms(10) by (simp add: field_simps)
  then have "debounce now rule_id debounce_ms st
               = (Inr True, st\<lparr>last_event_time := (last_event_time st)(k \<mapsto> now)\<rparr>)"
    using assms(6,7,9) by (simp add: debounce_def Let_def)
  with assms show ?thesis by (simp add: should_execute_rule_def)
qed

theorem debounce_recorded_before_conditions_witness:
  "check_conditions example_env
     [JObj [(''property'', JStr ''class''), (''operator'', JStr ''equals''),
            (''value'', JStr ''spotify'')]] firefox_event ''openwindow'' = Inr False \<and>
   should_execute_rule example_env 10 default_rule ''openwindow'' firefox_event fresh_daemon
     = (Inr False, fresh_daemon\<lparr>last_event_time := [KStr ''wf_001'' \<mapsto> 10]\<rparr>)"
proof -
  let ?cs = "[JObj [(''property'', JStr ''class''), (''operator'', JStr ''equals''),
                    (''value'', JStr ''spotify'')]]"
  let ?tr = "JObj [(''type'', JStr ''openwindow''), (''debounce'', JNum 100)]"
  have 1: "dict_get default_rule ''enabled'' (JBool True) = Inr (JBool True)"
    by (simp add: default_rule_def)
  have 2: "truthy (JBool True)" by simp
  have 3: "dict_get default_rule ''trigger'' (JObj []) = Inr ?tr"
    by (simp add: default_rule_def)
  have 4: "dict_get ?tr ''type'' JNull = Inr (JStr ''openwindow'')" by simp
  have 5: "dict_get ?tr ''debounce'' (JNum 0) = Inr (JNum 100)" by simp
  have 6: "as_number (JNum 100) = Some 100" by simp
  have 7: "(0::rat) < 100" by simp
  have 8: "dict_get default_rule ''id'' (JStr []) = Inr (JStr ''wf_001'')"
    by (simp add: default_rule_def)
  have 9: "py_hash (JStr ''wf_001'') = Inr (KStr ''wf_001'')" by simp
  have 10: "\<not> 1000 * (10 - (case last_event_time fresh_daemon (KStr ''wf_001'') of
                               None \<Rightarrow> 0 | Some t \<Rightarrow> t)) < (100::rat)"
    by (simp add: fresh_daemon_def)
  have 11: "dict_get default_rule ''conditions'' (JArr []) = Inr (JArr ?cs)"
    by (simp add: default_rule_def)
  have 12: "py_iter (JArr ?cs) = Inr ?cs" by simp
  have 13: "check_conditions example_env ?cs firefox_event ''openwindow'' = Inr False"
    by (simp add: rule_defs example_defs firefox_event_def)
  from debounce_recorded_before_conditions[OF 1 2 3 4 5 6 7 8 9 10 11 12 13] 13
  show ?thesis by (simp add: fresh_daemon_def)
qed

section \<open>Processing one event\<close>














end
